theory Spec2Isabelle
  imports Complex_Main "HOL-Library.Word"
begin

section \<open>Pixel buffers and the foreground scan (solver.js, createLetterSignature)\<close>

text \<open>
  The model follows src/solver.js (createLetterSignature, lines 253-349); the copy of
  that file inside src/main.js has the same function.
  A raw image is a Node Buffer of bytes together with its width, height and channel
  count. Reading a Buffer past its end gives \<open>undefined\<close> in JavaScript, and every
  comparison with \<open>undefined\<close> is false; \<open>byteAt\<close> returns \<open>None\<close> there.
  JavaScript numbers are modelled as naturals where the code only counts, and as exact
  rationals where it divides (the rounding of IEEE doubles is not modelled).
\<close>

type_synonym buffer = "8 word list"

type_synonym pixel = "nat \<times> nat"

definition byteAt :: "buffer \<Rightarrow> nat \<Rightarrow> nat option" where
  "byteAt data i = (if i < length data then Some (unat (data ! i)) else None)"

text \<open>The colour rule of solver.js (r < 120, g > 100, b > 120, g + b > 230) at
  buffer offset \<open>i\<close>.\<close>

definition isCyanLetter :: "buffer \<Rightarrow> nat \<Rightarrow> bool" where
  "isCyanLetter data i =
     (case byteAt data i of
        None \<Rightarrow> False
      | Some r \<Rightarrow>
          (case byteAt data (i + 1) of
             None \<Rightarrow> False
           | Some g \<Rightarrow>
               (case byteAt data (i + 2) of
                  None \<Rightarrow> False
                | Some b \<Rightarrow> r < 120 \<and> g > 100 \<and> b > 120 \<and> g + b > 230)))"

text \<open>The inner loop over \<open>x\<close> for one row \<open>y\<close>, and the outer loop over \<open>y\<close>:
  pixels are pushed in row-major scan order.\<close>

definition scanRow :: "buffer \<Rightarrow> nat \<Rightarrow> nat \<Rightarrow> nat \<Rightarrow> pixel list" where
  "scanRow data width channels y =
     map (\<lambda>x. (x, y))
       (filter (\<lambda>x. isCyanLetter data ((y * width + x) * channels)) [0..<width])"

definition brightPixelsOf :: "buffer \<Rightarrow> nat \<Rightarrow> nat \<Rightarrow> nat \<Rightarrow> pixel list" where
  "brightPixelsOf data width height channels =
     concat (map (scanRow data width channels) [0..<height])"

text \<open>\<open>Math.min(...xs)\<close> and \<open>Math.max(...xs)\<close>. With no argument JavaScript
  returns an infinity; both are only called after the guard that at least 80 pixels
  were found, so the empty case is never evaluated by the code.\<close>

fun mathMin :: "nat list \<Rightarrow> nat" where
  "mathMin [] = 0"
| "mathMin (x # xs) = fold min xs x"

fun mathMax :: "nat list \<Rightarrow> nat" where
  "mathMax [] = 0"
| "mathMax (x # xs) = fold max xs x"

record signature =
  cyanPixels :: nat
  pixelCount :: nat
  aspectRatio :: rat
  topHeavy :: rat
  bottomHeavy :: rat
  leftHeavy :: rat
  rightHeavy :: rat
  centerHole :: bool

definition createLetterSignature :: "buffer \<Rightarrow> nat \<Rightarrow> nat \<Rightarrow> nat \<Rightarrow> signature" where
  "createLetterSignature data width height channels =
     (let brightPixels = brightPixelsOf data width height channels in
      if length brightPixels < 80 then
        \<lparr>cyanPixels = length brightPixels, pixelCount = length brightPixels,
         aspectRatio = 1, topHeavy = 0.5, bottomHeavy = 0.5,
         leftHeavy = 0.5, rightHeavy = 0.5, centerHole = False\<rparr>
      else
        let minX = mathMin (map fst brightPixels);
            maxX = mathMax (map fst brightPixels);
            minY = mathMin (map snd brightPixels);
            maxY = mathMax (map snd brightPixels);
            letterWidth = maxX - minX + 1;
            letterHeight = maxY - minY + 1;
            aspectRatio = of_nat letterWidth / of_nat letterHeight;
            centerX = ((of_nat minX + of_nat maxX) / 2 :: rat);
            centerY = ((of_nat minY + of_nat maxY) / 2 :: rat);
            topPixels = length (filter (\<lambda>p. of_nat (snd p) < centerY) brightPixels);
            bottomPixels = length (filter (\<lambda>p. of_nat (snd p) \<ge> centerY) brightPixels);
            leftPixels = length (filter (\<lambda>p. of_nat (fst p) < centerX) brightPixels);
            rightPixels = length (filter (\<lambda>p. of_nat (fst p) \<ge> centerX) brightPixels);
            total = length brightPixels;
            topHeavy = of_nat topPixels / of_nat total;
            bottomHeavy = of_nat bottomPixels / of_nat total;
            leftHeavy = of_nat leftPixels / of_nat total;
            rightHeavy = of_nat rightPixels / of_nat total;
            centerRadius = (of_nat (min letterWidth letterHeight) / 4 :: rat);
            centerPixels = length (filter (\<lambda>p.
               \<bar>of_nat (fst p) - centerX\<bar> < centerRadius \<and>
               \<bar>of_nat (snd p) - centerY\<bar> < centerRadius) brightPixels);
            centerHole = (of_nat centerPixels < of_nat total * (0.15 :: rat))
        in \<lparr>cyanPixels = length brightPixels, pixelCount = length brightPixels,
            aspectRatio = aspectRatio, topHeavy = topHeavy, bottomHeavy = bottomHeavy,
            leftHeavy = leftHeavy, rightHeavy = rightHeavy, centerHole = centerHole\<rparr>)"

section \<open>The heuristic classifier (solver.js, matchSignatureToLetter and detectCellLetter)\<close>

text \<open>The thresholds are compared as exact rationals. The code compares doubles, so
  on a signature whose fractions sit within a rounding error of a threshold (for
  instance a left-right difference of exactly 15/100, which a double subtraction can
  return just below 0.15) the code may take the other branch; the statements below use
  this function only at values that are exact in doubles, or with the same classifier
  on both sides.\<close>

definition matchSignatureToLetter :: "signature \<Rightarrow> char" where
  "matchSignatureToLetter sig =
     (if cyanPixels sig < 50 then CHR ''?''
      else if aspectRatio sig > 2.0 \<or> aspectRatio sig < 0.15 then
        (if leftHeavy sig > 0.65 then CHR ''E''
         else if leftHeavy sig > 0.55 then CHR ''D''
         else CHR ''S'')
      else if aspectRatio sig > 1.30 then CHR ''W''
      else if centerHole sig then
        (if aspectRatio sig < 0.85 \<and> leftHeavy sig > 0.60 then CHR ''D''
         else if aspectRatio sig > 0.65 \<and> aspectRatio sig < 0.90
                 \<and> \<bar>leftHeavy sig - rightHeavy sig\<bar> < 0.15 then CHR ''Q''
         else CHR ''A'')
      else if aspectRatio sig < 1.1 \<and> leftHeavy sig > 0.60 then CHR ''E''
      else if aspectRatio sig < 1.1 \<and> leftHeavy sig > 0.54 \<and> leftHeavy sig \<le> 0.60
        then CHR ''R''
      else if aspectRatio sig > 0.70 \<and> aspectRatio sig < 1.25
              \<and> \<bar>leftHeavy sig - rightHeavy sig\<bar> < 0.18 then CHR ''S''
      else if aspectRatio sig > 1.25 then CHR ''W''
      else if leftHeavy sig > 0.58 then CHR ''E''
      else if leftHeavy sig > 0.52 then (if centerHole sig then CHR ''D'' else CHR ''R'')
      else CHR ''S'')"

text \<open>A decoded cell: the raw bytes with width, height and channels, or \<open>None\<close> when
  the image decoder throws (the \<open>catch\<close> of detectCellLetter then returns '?').\<close>

type_synonym decoded = "(buffer \<times> nat \<times> nat \<times> nat) option"

definition detectCellLetter :: "decoded \<Rightarrow> char" where
  "detectCellLetter raw =
     (case raw of
        None \<Rightarrow> CHR ''?''
      | Some (data, width, height, channels) \<Rightarrow>
          (let sg = createLetterSignature data width height channels in
           if cyanPixels sg < 50 then CHR ''?''
           else matchSignatureToLetter sg))"

section \<open>The correction table (main.js, detectCellLetter with remapping)\<close>

text \<open>The later revision of detectCellLetter (src/main.js, lines 666-709) remaps the
  classifier's letter through \<open>letterMap\<close>:
  \<open>letterMap[detectedLetter] || detectedLetter\<close>. Symbols are one-character
  strings, modelled as characters; every value of the table is a non-empty string, so
  \<open>||\<close> falls back to the detected letter exactly when the table has no entry.\<close>

definition letterMap :: "char \<rightharpoonup> char" where
  "letterMap = [CHR ''A'' \<mapsto> CHR ''D'', CHR ''S'' \<mapsto> CHR ''A'', CHR ''D'' \<mapsto> CHR ''E'',
                CHR ''Q'' \<mapsto> CHR ''R'', CHR ''W'' \<mapsto> CHR ''W'']"

definition correctedLetter :: "char \<Rightarrow> char" where
  "correctedLetter detectedLetter =
     (case letterMap detectedLetter of Some c \<Rightarrow> c | None \<Rightarrow> detectedLetter)"

definition detectCellLetter_remap :: "decoded \<Rightarrow> char" where
  "detectCellLetter_remap raw =
     (case raw of
        None \<Rightarrow> CHR ''?''
      | Some (data, width, height, channels) \<Rightarrow>
          (let sg = createLetterSignature data width height channels in
           if cyanPixels sg < 50 then CHR ''?''
           else let detectedLetter = matchSignatureToLetter sg
                in correctedLetter detectedLetter))"

section \<open>The older single-file detector (detectLetter)\<close>

text \<open>detectLetter (src/unnamed/part_000, lines 439-589) is modelled on the
  extracted cell region and returns the letter of its result object. It scans with a
  more lenient colour rule, divides coordinate differences (so the quotient can be an
  infinity or NaN), tests the hole with a Euclidean distance and remaps its letter
  through the same table. The comparison
  \<open>sqrt (dx*dx + dy*dy) < checkRadius\<close> is modelled by comparing the squares, the
  radius being non-negative.\<close>

datatype jsnum = Finite rat | PosInfinity | NotANumber

definition jsDivide :: "nat \<Rightarrow> nat \<Rightarrow> jsnum" where
  "jsDivide a b =
     (if b \<noteq> 0 then Finite (of_nat a / of_nat b)
      else if a = 0 then NotANumber else PosInfinity)"

fun jsGreater :: "jsnum \<Rightarrow> rat \<Rightarrow> bool" where
  "jsGreater (Finite q) c = (q > c)"
| "jsGreater PosInfinity c = True"
| "jsGreater NotANumber c = False"

fun jsLess :: "jsnum \<Rightarrow> rat \<Rightarrow> bool" where
  "jsLess (Finite q) c = (q < c)"
| "jsLess PosInfinity c = False"
| "jsLess NotANumber c = False"

definition absDiff :: "nat \<Rightarrow> nat \<Rightarrow> nat" where
  "absDiff a b = (if a \<le> b then b - a else a - b)"

definition isCyanLetter_lenient :: "buffer \<Rightarrow> nat \<Rightarrow> bool" where
  "isCyanLetter_lenient data i =
     (case byteAt data i of
        None \<Rightarrow> False
      | Some r \<Rightarrow>
          (case byteAt data (i + 1) of
             None \<Rightarrow> False
           | Some g \<Rightarrow>
               (case byteAt data (i + 2) of
                  None \<Rightarrow> False
                | Some b \<Rightarrow>
                    (let brightness = r + g + b;
                         colorDeviation = absDiff r g + absDiff r b + absDiff g b
                     in b > 80 \<and> g > 50 \<and> r < 160 \<and> brightness > 180 \<and>
                        colorDeviation > 60 \<and> (of_nat b :: rat) > of_nat r * 0.7))))"

definition brightPixelsOf_lenient :: "buffer \<Rightarrow> nat \<Rightarrow> nat \<Rightarrow> nat \<Rightarrow> pixel list" where
  "brightPixelsOf_lenient data w h channels =
     concat (map (\<lambda>y. map (\<lambda>x. (x, y))
        (filter (\<lambda>x. isCyanLetter_lenient data ((y * w + x) * channels)) [0..<w])) [0..<h])"

text \<open>The value of the variable \<open>letter\<close> before the remapping, for at least 30
  bright pixels.\<close>

definition detectLetter_classify :: "pixel list \<Rightarrow> char" where
  "detectLetter_classify brightPixels =
     (let minX = mathMin (map fst brightPixels);
          maxX = mathMax (map fst brightPixels);
          minY = mathMin (map snd brightPixels);
          maxY = mathMax (map snd brightPixels);
          letterWidth = maxX - minX;
          letterHeight = maxY - minY;
          aspectRatio = jsDivide letterWidth letterHeight;
          centerX = ((of_nat minX + of_nat maxX) / 2 :: rat);
          centerY = ((of_nat minY + of_nat maxY) / 2 :: rat);
          checkRadius = (of_nat (min letterWidth letterHeight) * 0.25 :: rat);
          centerPixels = length (filter (\<lambda>p.
             (of_nat (fst p) - centerX) * (of_nat (fst p) - centerX) +
             (of_nat (snd p) - centerY) * (of_nat (snd p) - centerY)
               < checkRadius * checkRadius) brightPixels);
          hasHole = ((of_nat centerPixels :: rat) < of_nat (length brightPixels) * 0.3);
          leftPixels = length (filter (\<lambda>p. of_nat (fst p) < centerX) brightPixels);
          rightPixels = length (filter (\<lambda>p. of_nat (fst p) \<ge> centerX) brightPixels)
      in if hasHole then
           (if jsGreater aspectRatio 0.95 then CHR ''A''
            else if jsLess aspectRatio 0.65 \<and>
                    (of_nat leftPixels :: rat) > of_nat rightPixels * 1.5 then CHR ''D''
            else if jsGreater aspectRatio 0.75 \<and> jsLess aspectRatio 0.95 then CHR ''Q''
            else CHR ''D'')
         else
           (if jsGreater aspectRatio 1.1 then CHR ''W'' else CHR ''S''))"

definition detectLetter :: "buffer \<Rightarrow> nat \<Rightarrow> nat \<Rightarrow> nat \<Rightarrow> char" where
  "detectLetter data w h channels =
     (let brightPixels = brightPixelsOf_lenient data w h channels in
      if length brightPixels < 30 then CHR ''?''
      else let letter = detectLetter_classify brightPixels
           in correctedLetter letter)"

section \<open>Configuration (solver.js, updateConfig)\<close>

text \<open>A configuration object (src/solver.js, lines 24-44 and 564-579); \<open>None\<close> is
  a property that is absent or \<open>undefined\<close>. The argument of updateConfig has the
  same shape. \<open>spread\<close> is one property of \<open>{...config, ...newConfig}\<close>, for an
  argument that carries no property set explicitly to \<open>undefined\<close> (the object
  spread would copy such a property over the old value, where \<open>spread\<close> keeps the
  old value).\<close>

record config =
  baseDelay :: "int option"
  delayVariance :: "int option"
  resolution :: "string option"
  cellSize :: "int option"
  cellSpacing :: "int option"
  offsetX :: "int option"
  offsetY :: "int option"

text \<open>The result of \<open>RESOLUTION_CONFIGS[name]\<close>: one of the two presets, a member
  inherited from \<open>Object.prototype\<close> (truthy, with none of the four fields), or
  \<open>undefined\<close>.\<close>

datatype lookup = Preset int int int int | Inherited | Missing

definition objectPrototypeKeys :: "string list" where
  "objectPrototypeKeys =
     [''constructor'', ''hasOwnProperty'', ''isPrototypeOf'', ''propertyIsEnumerable'',
      ''toLocaleString'', ''toString'', ''valueOf'', ''__defineGetter__'',
      ''__defineSetter__'', ''__lookupGetter__'', ''__lookupSetter__'', ''__proto__'']"

definition RESOLUTION_CONFIGS :: "string \<Rightarrow> lookup" where
  "RESOLUTION_CONFIGS name =
     (if name = ''1920x1080'' then Preset 100 95 (- 108) (- 88)
      else if name = ''2560x1440'' then Preset 133 127 (- 144) (- 117)
      else if name \<in> set objectPrototypeKeys then Inherited
      else Missing)"

definition initialConfig :: config where
  "initialConfig =
     \<lparr>baseDelay = Some 150, delayVariance = Some 50, resolution = Some ''1920x1080'',
      cellSize = Some 100, cellSpacing = Some 95, offsetX = Some (- 108),
      offsetY = Some (- 88)\<rparr>"

definition spread :: "'a option \<Rightarrow> 'a option \<Rightarrow> 'a option" where
  "spread old new = (case new of Some v \<Rightarrow> Some v | None \<Rightarrow> old)"

text \<open>JavaScript truthiness of an optional number: absent and 0 are falsy.\<close>

definition truthyNumber :: "int option \<Rightarrow> bool" where
  "truthyNumber v = (case v of None \<Rightarrow> False | Some n \<Rightarrow> n \<noteq> 0)"

definition updateConfig :: "config \<Rightarrow> config \<Rightarrow> config" where
  "updateConfig cfg newConfig =
     (let merged =
            \<lparr>baseDelay = spread (baseDelay cfg) (baseDelay newConfig),
             delayVariance = spread (delayVariance cfg) (delayVariance newConfig),
             resolution = spread (resolution cfg) (resolution newConfig),
             cellSize = spread (cellSize cfg) (cellSize newConfig),
             cellSpacing = spread (cellSpacing cfg) (cellSpacing newConfig),
             offsetX = spread (offsetX cfg) (offsetX newConfig),
             offsetY = spread (offsetY cfg) (offsetY newConfig)\<rparr>
      in case resolution newConfig of
           None \<Rightarrow> merged
         | Some name \<Rightarrow>
             if name = [] then merged
             else
               (case RESOLUTION_CONFIGS name of
                  Missing \<Rightarrow> merged
                | Inherited \<Rightarrow>
                    merged\<lparr>cellSize := None, cellSpacing := None,
                           offsetX := (if \<not> truthyNumber (offsetX newConfig) then None
                                       else offsetX merged),
                           offsetY := (if \<not> truthyNumber (offsetY newConfig) then None
                                       else offsetY merged)\<rparr>
                | Preset cs sp ox oy \<Rightarrow>
                    merged\<lparr>cellSize := Some cs, cellSpacing := Some sp,
                           offsetX := (if \<not> truthyNumber (offsetX newConfig) then Some ox
                                       else offsetX merged),
                           offsetY := (if \<not> truthyNumber (offsetY newConfig) then Some oy
                                       else offsetY merged)\<rparr>))"

section \<open>Presence validation (solver.js, validateMinigamePresent)\<close>

text \<open>The model follows src/solver.js, lines 352-437. The argument is the decoded
  grid region, or \<open>None\<close> when extracting or decoding it throws (the \<open>catch\<close>
  returns false). The loop visits the offsets
  0, channels, 2 * channels, ... below the buffer length; the decoder reports between
  one and four channels.\<close>

definition pixelOffsets :: "buffer \<Rightarrow> nat \<Rightarrow> nat list" where
  "pixelOffsets data channels =
     map (\<lambda>k. k * channels) [0..<(length data + channels - 1) div channels]"

definition isValidationCyan :: "buffer \<Rightarrow> nat \<Rightarrow> bool" where
  "isValidationCyan data i =
     (case byteAt data i of
        None \<Rightarrow> False
      | Some r \<Rightarrow>
          (case byteAt data (i + 1) of
             None \<Rightarrow> False
           | Some g \<Rightarrow>
               (case byteAt data (i + 2) of
                  None \<Rightarrow> False
                | Some b \<Rightarrow>
                    (let brightness = r + g + b;
                         colorDeviation = absDiff r g + absDiff r b + absDiff g b
                     in b > 100 \<and> g > 70 \<and> r < 140 \<and> brightness > 230 \<and>
                        colorDeviation > 80))))"

definition isDarkBlue :: "buffer \<Rightarrow> nat \<Rightarrow> bool" where
  "isDarkBlue data i =
     (case byteAt data i of
        None \<Rightarrow> False
      | Some r \<Rightarrow>
          (case byteAt data (i + 1) of
             None \<Rightarrow> False
           | Some g \<Rightarrow>
               (case byteAt data (i + 2) of
                  None \<Rightarrow> False
                | Some b \<Rightarrow> b > 20 \<and> b < 80 \<and> r < 50 \<and> g < 70)))"

definition isGridBorder :: "buffer \<Rightarrow> nat \<Rightarrow> bool" where
  "isGridBorder data i =
     (case byteAt data i of
        None \<Rightarrow> False
      | Some r \<Rightarrow>
          (case byteAt data (i + 1) of
             None \<Rightarrow> False
           | Some g \<Rightarrow>
               (case byteAt data (i + 2) of
                  None \<Rightarrow> False
                | Some b \<Rightarrow> (b > 90 \<and> b < 220) \<and> (g > 70 \<and> g < 180) \<and> r < 140)))"

definition validateMinigamePresent :: "decoded \<Rightarrow> bool" where
  "validateMinigamePresent region =
     (case region of
        None \<Rightarrow> False
      | Some (data, width, height, channels) \<Rightarrow>
          (let offsets = pixelOffsets data channels;
               cyanPixelCount = length (filter (isValidationCyan data) offsets);
               darkBluePixelCount = length (filter (isDarkBlue data) offsets);
               gridBorderPixelCount = length (filter (isGridBorder data) offsets);
               totalPixels = (of_nat (length data) / of_nat channels :: rat);
               cyanPercentage = of_nat cyanPixelCount / totalPixels * 100;
               darkBluePercentage = of_nat darkBluePixelCount / totalPixels * 100;
               borderPercentage = of_nat gridBorderPixelCount / totalPixels * 100;
               hasLetters = (cyanPercentage > 0.2 \<and> cyanPixelCount > 150);
               hasBackground = (darkBluePercentage > 25);
               hasGridLines = (borderPercentage > 1.0)
           in hasLetters \<and> hasBackground \<and> hasGridLines))"

section \<open>Events, errors and the key sequence (solver.js, executeKeySequence)\<close>

datatype error =
    ScreenCaptureFailed
  | CellCaptureFailed nat nat
  | TooManyUndetected nat
  | SequenceStopped

datatype status = Detecting | Executing | Complete | Error | Stopped

datatype message =
    ScanningScreen
  | CapturingScreen
  | CheckingForMinigame
  | DetectingLetters
  | WarningUnclear nat
  | ExecutingKeySequence
  | CompleteIn
  | ErrorMessage error
  | StoppedMessage

text \<open>What the main process sends out: a \<open>solver-status\<close> message, the detected
  grid, a \<open>key-pressed\<close> notification (index and letter), and a key handed to
  sendKey.\<close>

datatype event =
    SolverStatus status message
  | GridDetected "char list"
  | KeyPressed nat char
  | SendKey char

definition toLowerCase :: "char \<Rightarrow> char" where
  "toLowerCase c =
     (if 65 \<le> (of_char c :: nat) \<and> (of_char c :: nat) \<le> 90
      then char_of (of_char c + 32 :: nat) else c)"

text \<open>
  The loop of executeKeySequence at index \<open>i\<close>, on the letters from \<open>i\<close> on, with
  the current value of the flag \<open>shouldStop\<close>. The environment \<open>stopDuring i\<close> says
  whether stopSolver (main.js) runs while iteration \<open>i\<close> is suspended in sendKey or in
  the delay: it sets the flag and sends the \<open>stopped\<close> status. A skipped position
  does not suspend. The callback is the one startSolver passes. The result is the
  events sent and the exception thrown, if any; sendKey catches its own failures.
\<close>

fun keyLoop :: "(nat \<Rightarrow> bool) \<Rightarrow> bool \<Rightarrow> nat \<Rightarrow> char list \<Rightarrow> event list \<times> error option" where
  "keyLoop stopDuring shouldStop i [] = ([], None)"
| "keyLoop stopDuring shouldStop i (letter # rest) =
     (if shouldStop then ([], Some SequenceStopped)
      else if letter = CHR ''?'' then keyLoop stopDuring shouldStop (i + 1) rest
      else
        (let stopNow = stopDuring i;
             (evs, r) = keyLoop stopDuring (shouldStop \<or> stopNow) (i + 1) rest
         in (KeyPressed i letter # SendKey (toLowerCase letter) #
               (if stopNow then [SolverStatus Stopped StoppedMessage] else []) @ evs, r)))"

definition executeKeySequence :: "(nat \<Rightarrow> bool) \<Rightarrow> char list \<Rightarrow> event list \<times> error option" where
  "executeKeySequence stopDuring letters = keyLoop stopDuring False 0 letters"

section \<open>Grid detection and the session (solver.js detectLetters, main.js startSolver)\<close>

text \<open>\<open>cell row col\<close> is the captured cell: \<open>None\<close> when capturing it (or saving
  its debug image) throws, which aborts detectLetters; otherwise its decoding.\<close>

fun collectCells :: "(nat \<Rightarrow> nat \<Rightarrow> decoded option) \<Rightarrow> (nat \<times> nat) list \<Rightarrow> error + char list" where
  "collectCells cell [] = Inr []"
| "collectCells cell ((row, col) # rest) =
     (case cell row col of
        None \<Rightarrow> Inl (CellCaptureFailed row col)
      | Some raw \<Rightarrow>
          (case collectCells cell rest of
             Inl e \<Rightarrow> Inl e
           | Inr letters \<Rightarrow> Inr (detectCellLetter raw # letters)))"

definition gridPositions :: "(nat \<times> nat) list" where
  "gridPositions = concat (map (\<lambda>row. map (\<lambda>col. (row, col)) [0..<3]) [0..<3])"

definition detectLetters :: "(nat \<Rightarrow> nat \<Rightarrow> decoded option) \<Rightarrow> error + char list" where
  "detectLetters cell = collectCells cell gridPositions"

text \<open>What one trigger of startSolver (src/main.js, lines 156-225) meets: whether
  the screen capture succeeds, the grid region handed to the presence validation, the
  nine cells, and the stop requests during execution. The first argument of
  startSolver is the flag \<open>isDetecting\<close> at the trigger; the result is the list of
  messages sent, in order. The verdict of the presence validation is bound and, as in
  the source, not used.\<close>

record world =
  captureOk :: bool
  gridRegion :: decoded
  cells :: "nat \<Rightarrow> nat \<Rightarrow> decoded option"
  stopDuring :: "nat \<Rightarrow> bool"

definition startSolver :: "bool \<Rightarrow> world \<Rightarrow> event list" where
  "startSolver isDetecting w =
     (if isDetecting then []
      else
        SolverStatus Detecting ScanningScreen #
        SolverStatus Detecting CapturingScreen #
        (if \<not> captureOk w then [SolverStatus Error (ErrorMessage ScreenCaptureFailed)]
         else
           SolverStatus Detecting CheckingForMinigame #
           (let isMinigamePresent = validateMinigamePresent (gridRegion w) in
            SolverStatus Detecting DetectingLetters #
            (case detectLetters (cells w) of
               Inl e \<Rightarrow> [SolverStatus Error (ErrorMessage e)]
             | Inr letters \<Rightarrow>
                 GridDetected letters #
                 (let unknownCount = length (filter (\<lambda>l. l = CHR ''?'') letters) in
                  if unknownCount > 5
                  then [SolverStatus Error (ErrorMessage (TooManyUndetected unknownCount))]
                  else
                    (if unknownCount > 0
                     then [SolverStatus Detecting (WarningUnclear unknownCount)] else []) @
                    SolverStatus Executing ExecutingKeySequence #
                    (case executeKeySequence (stopDuring w) letters of
                       (evs, None) \<Rightarrow> evs @ [SolverStatus Complete CompleteIn]
                     | (evs, Some e) \<Rightarrow> evs @ [SolverStatus Error (ErrorMessage e)]))))))"

text \<open>Projections of a trace: the key events, the \<open>executing\<close> status, the
  (index, letter) pairs of the \<open>key-pressed\<close> notifications in order, and the keys
  handed to sendKey in order.\<close>

fun isKeyEvent :: "event \<Rightarrow> bool" where
  "isKeyEvent (KeyPressed i c) = True"
| "isKeyEvent (SendKey c) = True"
| "isKeyEvent e = False"

fun isExecuting :: "event \<Rightarrow> bool" where
  "isExecuting (SolverStatus Executing m) = True"
| "isExecuting e = False"

fun keyPair :: "event \<Rightarrow> (nat \<times> char) list" where
  "keyPair (KeyPressed i c) = [(i, c)]"
| "keyPair e = []"

fun sentKey :: "event \<Rightarrow> char list" where
  "sentKey (SendKey c) = [c]"
| "sentKey e = []"

definition keyPairs :: "event list \<Rightarrow> (nat \<times> char) list" where
  "keyPairs evs = concat (map keyPair evs)"

definition notUnknown :: "nat \<times> char \<Rightarrow> bool" where
  "notUnknown p = (snd p \<noteq> CHR ''?'')"

definition sentKeys :: "event list \<Rightarrow> char list" where
  "sentKeys evs = concat (map sentKey evs)"

section \<open>The foreground set and its bounding box\<close>

text \<open>The set of foreground pixels of a cell under the colour rule, and the
  quantities of its axis-aligned bounding box, stated on the set.\<close>

definition foreground :: "buffer \<Rightarrow> nat \<Rightarrow> nat \<Rightarrow> nat \<Rightarrow> pixel set" where
  "foreground data width height channels =
     {(x, y). x < width \<and> y < height \<and> isCyanLetter data ((y * width + x) * channels)}"

definition boxWidth :: "pixel set \<Rightarrow> nat" where
  "boxWidth S = Max (fst ` S) - Min (fst ` S) + 1"

definition boxHeight :: "pixel set \<Rightarrow> nat" where
  "boxHeight S = Max (snd ` S) - Min (snd ` S) + 1"

definition boxCenterX :: "pixel set \<Rightarrow> rat" where
  "boxCenterX S = (of_nat (Min (fst ` S)) + of_nat (Max (fst ` S))) / 2"

definition boxCenterY :: "pixel set \<Rightarrow> rat" where
  "boxCenterY S = (of_nat (Min (snd ` S)) + of_nat (Max (snd ` S))) / 2"

definition boxRadius :: "pixel set \<Rightarrow> rat" where
  "boxRadius S = of_nat (min (boxWidth S) (boxHeight S)) / 4"

text \<open>Within the radius of the box centre, Euclidean distance (a disc).\<close>

definition withinRadius :: "rat \<Rightarrow> rat \<Rightarrow> rat \<Rightarrow> pixel \<Rightarrow> bool" where
  "withinRadius cx cy r p =
     ((of_nat (fst p) - cx) * (of_nat (fst p) - cx) +
      (of_nat (snd p) - cy) * (of_nat (snd p) - cy) < r * r)"

text \<open>Within the radius on each axis separately (a square window).\<close>

definition withinWindow :: "rat \<Rightarrow> rat \<Rightarrow> rat \<Rightarrow> pixel \<Rightarrow> bool" where
  "withinWindow cx cy r p =
     (\<bar>of_nat (fst p) - cx\<bar> < r \<and> \<bar>of_nat (snd p) - cy\<bar> < r)"

definition discCount :: "pixel set \<Rightarrow> nat" where
  "discCount S = card (Set.filter (withinRadius (boxCenterX S) (boxCenterY S) (boxRadius S)) S)"

definition windowCount :: "pixel set \<Rightarrow> nat" where
  "windowCount S = card (Set.filter (withinWindow (boxCenterX S) (boxCenterY S) (boxRadius S)) S)"

section \<open>Test images\<close>

text \<open>A three-channel image of the given size whose pixels listed in \<open>fg\<close> are
  cyan (0, 200, 200) and whose other pixels are black.\<close>

definition paintPixel :: "pixel list \<Rightarrow> nat \<Rightarrow> nat \<Rightarrow> buffer" where
  "paintPixel fg y x = (if (x, y) \<in> set fg then [0, 200, 200] else [0, 0, 0])"

definition paint :: "nat \<Rightarrow> nat \<Rightarrow> pixel list \<Rightarrow> buffer" where
  "paint width height fg =
     concat (map (\<lambda>y. concat (map (paintPixel fg y) [0..<width])) [0..<height])"

definition block :: "nat \<Rightarrow> nat \<Rightarrow> pixel list" where
  "block width height = concat (map (\<lambda>y. map (\<lambda>x. (x, y)) [0..<width]) [0..<height])"

text \<open>A 12 by 8 cell, all cyan but for the four pixels around its centre and
  twelve pixels of its second and seventh rows; 80 cyan pixels in all, and the bounding
  box is the whole cell.\<close>

definition holes :: "pixel list" where
  "holes =
     [(5, 3), (6, 3), (5, 4), (6, 4),
      (1, 1), (2, 1), (3, 1), (8, 1), (9, 1), (10, 1),
      (1, 6), (2, 6), (3, 6), (8, 6), (9, 6), (10, 6)]"

definition ringCell :: "pixel list" where
  "ringCell = filter (\<lambda>p. p \<notin> set holes) (block 12 8)"

text \<open>A 10 by 8 all-cyan cell, and three runs of startSolver: every cell cyan and
  a small all-cyan grid region; the same with a stop request while the third key is
  suspended; and a run whose first row is cyan and whose other six cells fail to
  decode.\<close>

definition cyanCell :: decoded where
  "cyanCell = Some (paint 10 8 (block 10 8), 10, 8, 3)"

definition cyanWorld :: world where
  "cyanWorld =
     \<lparr>captureOk = True, gridRegion = Some (paint 4 4 (block 4 4), 4, 4, 3),
      cells = (\<lambda>row col. Some cyanCell), stopDuring = (\<lambda>i. False)\<rparr>"

definition stopWorld :: world where
  "stopWorld =
     \<lparr>captureOk = True, gridRegion = Some (paint 4 4 (block 4 4), 4, 4, 3),
      cells = (\<lambda>row col. Some cyanCell), stopDuring = (\<lambda>i. i = 2)\<rparr>"

definition sparseWorld :: world where
  "sparseWorld =
     \<lparr>captureOk = True, gridRegion = None,
      cells = (\<lambda>row col. if row = 0 then Some cyanCell else Some None),
      stopDuring = (\<lambda>i. False)\<rparr>"

section \<open>Properties of the signature extractor\<close>

subsection \<open>The scan collects the foreground set, each pixel once\<close>

lemma set_scanRow:
  "set (scanRow data width channels y) =
     {(x, y') . y' = y \<and> x < width \<and> isCyanLetter data ((y * width + x) * channels)}"
  by (auto simp: scanRow_def)

lemma set_brightPixelsOf:
  "set (brightPixelsOf data width height channels) = foreground data width height channels"
  by (auto simp: brightPixelsOf_def foreground_def set_scanRow)

lemma distinct_scanRow: "distinct (scanRow data width channels y)"
  by (simp add: scanRow_def distinct_map inj_on_def)

lemma distinct_brightPixelsOf: "distinct (brightPixelsOf data width height channels)"
proof (induction height)
  case 0
  show ?case by (simp add: brightPixelsOf_def)
next
  case (Suc h)
  have "brightPixelsOf data width (Suc h) channels =
        brightPixelsOf data width h channels @ scanRow data width channels h"
    by (simp add: brightPixelsOf_def)
  moreover have "set (brightPixelsOf data width h channels) \<inter> set (scanRow data width channels h) = {}"
    by (auto simp: set_brightPixelsOf foreground_def set_scanRow)
  ultimately show ?case using Suc by (simp add: distinct_scanRow)
qed

lemma length_brightPixelsOf:
  "length (brightPixelsOf data width height channels) = card (foreground data width height channels)"
  using distinct_card[OF distinct_brightPixelsOf, of data width height channels]
  by (simp add: set_brightPixelsOf)

lemma mathMin_Min: "xs \<noteq> [] \<Longrightarrow> mathMin xs = Min (set xs)"
proof (cases xs)
  case (Cons a l)
  then show ?thesis using Min.set_eq_fold[of a l] by simp
qed simp

lemma mathMax_Max: "xs \<noteq> [] \<Longrightarrow> mathMax xs = Max (set xs)"
proof (cases xs)
  case (Cons a l)
  then show ?thesis using Max.set_eq_fold[of a l] by simp
qed simp

subsection \<open>The two branches of createLetterSignature\<close>

lemma signature_neutral:
  assumes "length (brightPixelsOf data width height channels) < 80"
  shows "createLetterSignature data width height channels =
     \<lparr>cyanPixels = length (brightPixelsOf data width height channels),
      pixelCount = length (brightPixelsOf data width height channels),
      aspectRatio = 1, topHeavy = 1 / 2, bottomHeavy = 1 / 2,
      leftHeavy = 1 / 2, rightHeavy = 1 / 2, centerHole = False\<rparr>"
  using assms by (simp add: createLetterSignature_def Let_def)

lemma box_of_list:
  assumes "bp \<noteq> []"
  shows "mathMax (map fst bp) - mathMin (map fst bp) + 1 = boxWidth (set bp)"
    and "mathMax (map snd bp) - mathMin (map snd bp) + 1 = boxHeight (set bp)"
    and "(of_nat (mathMin (map fst bp)) + of_nat (mathMax (map fst bp))) / 2 = boxCenterX (set bp)"
    and "(of_nat (mathMin (map snd bp)) + of_nat (mathMax (map snd bp))) / 2 = boxCenterY (set bp)"
  using assms by (simp_all add: mathMin_Min mathMax_Max boxWidth_def boxHeight_def
      boxCenterX_def boxCenterY_def)

lemma aspectRatio_computed:
  assumes "\<not> length (brightPixelsOf data width height channels) < 80"
  shows "aspectRatio (createLetterSignature data width height channels) =
     of_nat (boxWidth (foreground data width height channels)) /
     of_nat (boxHeight (foreground data width height channels))"
proof -
  have ne: "brightPixelsOf data width height channels \<noteq> []" using assms by auto
  show ?thesis
    unfolding createLetterSignature_def Let_def
    by (simp only: assms if_False signature.select_convs box_of_list[OF ne] set_brightPixelsOf)
qed

lemma centerHole_computed:
  assumes "\<not> length (brightPixelsOf data width height channels) < 80"
  shows "centerHole (createLetterSignature data width height channels) =
     (of_nat (windowCount (foreground data width height channels)) <
      of_nat (card (foreground data width height channels)) * (0.15 :: rat))"
proof -
  let ?bp = "brightPixelsOf data width height channels"
  have ne: "?bp \<noteq> []" using assms by auto
  have cnt: "length (filter P ?bp) = card (Set.filter P (set ?bp))" for P
    using distinct_card[OF distinct_filter[OF distinct_brightPixelsOf], of P data width height channels]
    by simp
  show ?thesis
    unfolding createLetterSignature_def Let_def
    apply (simp only: assms if_False signature.select_convs box_of_list[OF ne])
    apply (simp only: windowCount_def boxRadius_def withinWindow_def[abs_def] cnt
             set_brightPixelsOf length_brightPixelsOf)
    done
qed

subsection \<open>Scanning a test image\<close>

lemma length_concat_uniform:
  "(\<And>i. i < n \<Longrightarrow> length (g i) = m) \<Longrightarrow> length (concat (map g [0..<n])) = n * m"
  by (induction n) simp_all

lemma nth_concat_uniform:
  "(\<And>i. i < n \<Longrightarrow> length (g i) = m) \<Longrightarrow> i < n \<Longrightarrow> k < m \<Longrightarrow>
     concat (map g [0..<n]) ! (i * m + k) = g i ! k"
proof (induction n)
  case 0
  then show ?case by simp
next
  case (Suc n)
  have len: "length (concat (map g [0..<n])) = n * m"
    using Suc.prems(1) by (intro length_concat_uniform) simp
  show ?case
  proof (cases "i < n")
    case True
    have "i * m + k < n * m"
    proof -
      have "i * m + k < i * m + m" using Suc.prems(3) by simp
      also have "\<dots> = Suc i * m" by simp
      also have "\<dots> \<le> n * m" using True by (intro mult_le_mono1) simp
      finally show ?thesis .
    qed
    then show ?thesis using Suc True len by (simp add: nth_append)
  next
    case False
    then have "i = n" using Suc.prems(2) by simp
    then show ?thesis using len Suc.prems(3) by (simp add: nth_append)
  qed
qed

lemma length_paint_row: "length (concat (map (paintPixel fg y) [0..<width])) = width * 3"
  by (rule length_concat_uniform) (simp add: paintPixel_def)

lemma length_paint: "length (paint width height fg) = height * (width * 3)"
  unfolding paint_def by (rule length_concat_uniform) (rule length_paint_row)

lemma paint_nth:
  assumes "x < width" "y < height" "k < 3"
  shows "paint width height fg ! ((y * width + x) * 3 + k) = paintPixel fg y x ! k"
proof -
  have "x * 3 + k < width * 3" using assms by simp
  then have "paint width height fg ! (y * (width * 3) + (x * 3 + k))
        = concat (map (paintPixel fg y) [0..<width]) ! (x * 3 + k)"
    unfolding paint_def using assms(2)
    by (intro nth_concat_uniform) (simp_all add: length_paint_row)
  also have "\<dots> = paintPixel fg y x ! k"
    using assms by (intro nth_concat_uniform) (simp_all add: paintPixel_def)
  finally show ?thesis by (simp add: algebra_simps)
qed

lemma paint_bound:
  assumes "x < width" "y < height" "k < 3"
  shows "(y * width + x) * 3 + k < length (paint width height fg)"
proof -
  have "(y * width + x) * 3 + k < (y * width + x) * 3 + 3" using assms by simp
  also have "\<dots> = (y * width + Suc x) * 3" by simp
  also have "\<dots> \<le> (y * width + width) * 3" using assms by (intro mult_le_mono1) simp
  also have "\<dots> = Suc y * (width * 3)" by simp
  also have "\<dots> \<le> height * (width * 3)" using assms by (intro mult_le_mono1) simp
  finally show ?thesis by (simp add: length_paint)
qed

lemma isCyanLetter_paint:
  assumes "x < width" "y < height"
  shows "isCyanLetter (paint width height fg) ((y * width + x) * 3) = ((x, y) \<in> set fg)"
proof -
  have b: "byteAt (paint width height fg) ((y * width + x) * 3 + k) = Some (unat (paintPixel fg y x ! k))"
    if "k < 3" for k
    using paint_bound[OF assms that, of fg] paint_nth[OF assms that, of fg] by (simp add: byteAt_def)
  from b[of 0] b[of 1] b[of 2] show ?thesis
    by (simp add: isCyanLetter_def paintPixel_def)
qed

lemma brightPixelsOf_paint:
  "brightPixelsOf (paint width height fg) width height 3 =
     concat (map (\<lambda>y. map (\<lambda>x. (x, y)) (filter (\<lambda>x. (x, y) \<in> set fg) [0..<width])) [0..<height])"
proof -
  have "scanRow (paint width height fg) width 3 y =
        map (\<lambda>x. (x, y)) (filter (\<lambda>x. (x, y) \<in> set fg) [0..<width])" if "y < height" for y
  proof -
    have "filter (\<lambda>x. isCyanLetter (paint width height fg) ((y * width + x) * 3)) [0..<width]
        = filter (\<lambda>x. (x, y) \<in> set fg) [0..<width]"
      by (rule filter_cong[OF refl]) (simp only: set_upt atLeastLessThan_iff isCyanLetter_paint[OF _ that])
    then show ?thesis by (simp only: scanRow_def)
  qed
  then show ?thesis
    unfolding brightPixelsOf_def by (intro arg_cong[where f = concat] map_cong refl) simp
qed

subsection \<open>Evaluating the test images\<close>

lemma scan_block_10_8:
  "brightPixelsOf (paint 10 8 (block 10 8)) 10 8 3 = block 10 8"
  unfolding brightPixelsOf_paint by code_simp

lemma scan_block_10_6:
  "brightPixelsOf (paint 10 6 (block 10 6)) 10 6 3 = block 10 6"
  unfolding brightPixelsOf_paint by code_simp

lemma scan_ringCell:
  "brightPixelsOf (paint 12 8 ringCell) 12 8 3 = ringCell"
  unfolding brightPixelsOf_paint by code_simp

lemma card_ringCell: "card (foreground (paint 12 8 ringCell) 12 8 3) = 80"
  unfolding length_brightPixelsOf[symmetric] scan_ringCell by code_simp

lemma centerHole_ringCell:
  "centerHole (createLetterSignature (paint 12 8 ringCell) 12 8 3) = False"
  unfolding createLetterSignature_def scan_ringCell by code_simp

lemma discCount_ringCell: "discCount (foreground (paint 12 8 ringCell) 12 8 3) = 8"
  unfolding set_brightPixelsOf[symmetric] scan_ringCell by code_simp

lemma signature_block_10_6:
  "createLetterSignature (paint 10 6 (block 10 6)) 10 6 3 =
     \<lparr>cyanPixels = 60, pixelCount = 60, aspectRatio = 1, topHeavy = 1 / 2, bottomHeavy = 1 / 2,
      leftHeavy = 1 / 2, rightHeavy = 1 / 2, centerHole = False\<rparr>"
  unfolding createLetterSignature_def scan_block_10_6 by code_simp

lemma letter_block_10_6: "detectCellLetter (Some (paint 10 6 (block 10 6), 10, 6, 3)) = CHR ''S''"
  by (simp add: detectCellLetter_def signature_block_10_6 matchSignatureToLetter_def)

lemma signature_block_10_8:
  "createLetterSignature (paint 10 8 (block 10 8)) 10 8 3 =
     \<lparr>cyanPixels = 80, pixelCount = 80, aspectRatio = 5 / 4, topHeavy = 1 / 2,
      bottomHeavy = 1 / 2, leftHeavy = 1 / 2, rightHeavy = 1 / 2, centerHole = False\<rparr>"
  unfolding createLetterSignature_def scan_block_10_8 by code_simp

lemma aspect_block_10_8:
  "aspectRatio (createLetterSignature (paint 10 8 (block 10 8)) 10 8 3) = 5 / 4"
  by (simp add: signature_block_10_8)

lemma letter_block_10_8: "detectCellLetter (Some (paint 10 8 (block 10 8), 10, 8, 3)) = CHR ''S''"
  by (simp add: detectCellLetter_def signature_block_10_8 matchSignatureToLetter_def)

subsection \<open>Mass fractions\<close>

lemma filter_split_length:
  fixes c :: rat
  shows "length (filter (\<lambda>p. f p < c) xs) + length (filter (\<lambda>p. f p \<ge> c) xs) = length xs"
  by (induction xs) auto

lemma heavy_sum:
  fixes c :: rat
  assumes "xs \<noteq> []"
  shows "of_nat (length (filter (\<lambda>p. f p < c) xs)) / of_nat (length xs)
       + of_nat (length (filter (\<lambda>p. f p \<ge> c) xs)) / of_nat (length xs) = (1::rat)"
proof -
  have "of_nat (length (filter (\<lambda>p. f p < c) xs)) + of_nat (length (filter (\<lambda>p. f p \<ge> c) xs))
        = (of_nat (length xs) :: rat)"
    using filter_split_length[of f c xs] by (metis of_nat_add)
  moreover have "(of_nat (length xs) :: rat) \<noteq> 0" using assms by simp
  ultimately show ?thesis by (simp add: add_divide_distrib[symmetric])
qed

lemma heavy_range:
  assumes "xs \<noteq> []"
  shows "0 \<le> (of_nat (length (filter P xs)) / of_nat (length xs) :: rat)
       \<and> (of_nat (length (filter P xs)) / of_nat (length xs) :: rat) \<le> 1"
proof -
  have "length (filter P xs) \<le> length xs" by simp
  then have "(of_nat (length (filter P xs)) :: rat) \<le> of_nat (length xs)"
    by (simp only: of_nat_le_iff)
  moreover have "(0::rat) < of_nat (length xs)" using assms by simp
  ultimately show ?thesis by (simp add: divide_le_eq)
qed

section \<open>Properties of the key loop and of grid detection\<close>

lemma keyLoop_stopped:
  "keyLoop sd True i ls = (if ls = [] then ([], None) else ([], Some SequenceStopped))"
  by (cases ls) simp_all

lemma keyLoop_sentKeys:
  "keyLoop sd b i ls = (evs, r) \<Longrightarrow>
     sentKeys evs = map (\<lambda>p. toLowerCase (snd p)) (keyPairs evs)"
proof (induction ls arbitrary: b i evs r)
  case Nil
  then show ?case by (simp add: sentKeys_def keyPairs_def)
next
  case (Cons letter rest)
  show ?case
  proof (cases "b \<or> letter = CHR ''?''")
    case True
    then show ?thesis using Cons
      by (auto simp: sentKeys_def keyPairs_def split: if_splits)
  next
    case False
    obtain evs' r' where rec: "keyLoop sd (sd i) (i + 1) rest = (evs', r')"
      by (cases "keyLoop sd (sd i) (i + 1) rest") auto
    from Cons.IH[OF rec] Cons.prems False rec show ?thesis
      by (auto simp: sentKeys_def keyPairs_def Let_def)
  qed
qed

lemma notUnknown_pair: "notUnknown (n, c) = (c \<noteq> CHR ''?'')"
  by (simp add: notUnknown_def)

lemma keyLoop_prefix:
  "keyLoop sd False i ls = (evs, r) \<Longrightarrow>
     \<exists>k \<le> length ls.
        keyPairs evs = filter notUnknown (enumerate i (take k ls))
      \<and> (r = None \<longrightarrow> k = length ls)
      \<and> (r \<noteq> None \<longrightarrow> r = Some SequenceStopped \<and> k < length ls)
      \<and> (\<forall>p \<in> set (filter notUnknown (enumerate i (take (k - 1) ls))). \<not> sd (fst p))"
proof (induction ls arbitrary: i evs r)
  case Nil
  then show ?case by (simp add: keyPairs_def)
next
  case (Cons letter rest)
  show ?case
  proof (cases "letter = CHR ''?''")
    case True
    with Cons.prems have rec: "keyLoop sd False (Suc i) rest = (evs, r)" by simp
    from Cons.IH[OF rec] obtain k where k: "k \<le> length rest"
      "keyPairs evs = filter notUnknown (enumerate (Suc i) (take k rest))"
      "r = None \<longrightarrow> k = length rest"
      "r \<noteq> None \<longrightarrow> r = Some SequenceStopped \<and> k < length rest"
      "\<forall>p \<in> set (filter notUnknown (enumerate (Suc i) (take (k - 1) rest))). \<not> sd (fst p)"
      by blast
    have "\<forall>p \<in> set (filter notUnknown (enumerate i (take (Suc k - 1) (letter # rest)))). \<not> sd (fst p)"
      using k(5) True by (cases k) (simp_all add: notUnknown_pair)
    with k True show ?thesis
      by (intro exI[of _ "Suc k"]) (simp add: notUnknown_pair)
  next
    case False
    show ?thesis
    proof (cases "sd i")
      case True
      with False Cons.prems have "evs = [KeyPressed i letter, SendKey (toLowerCase letter),
            SolverStatus Stopped StoppedMessage]"
        and "r = (if rest = [] then None else Some SequenceStopped)"
        by (auto simp: keyLoop_stopped split: if_splits)
      with False show ?thesis
        by (intro exI[of _ "Suc 0"]) (simp add: keyPairs_def notUnknown_pair)
    next
      case noStop: False
      obtain evs' where rec: "keyLoop sd False (Suc i) rest = (evs', r)"
        and evs: "evs = KeyPressed i letter # SendKey (toLowerCase letter) # evs'"
        using Cons.prems False noStop
        by (cases "keyLoop sd False (Suc i) rest") (auto simp: Let_def)
      from Cons.IH[OF rec] obtain k where k: "k \<le> length rest"
        "keyPairs evs' = filter notUnknown (enumerate (Suc i) (take k rest))"
        "r = None \<longrightarrow> k = length rest"
        "r \<noteq> None \<longrightarrow> r = Some SequenceStopped \<and> k < length rest"
        "\<forall>p \<in> set (filter notUnknown (enumerate (Suc i) (take (k - 1) rest))). \<not> sd (fst p)"
        by blast
      have "\<forall>p \<in> set (filter notUnknown (enumerate i (take (Suc k - 1) (letter # rest)))). \<not> sd (fst p)"
        using k(5) noStop by (cases k) (simp_all add: notUnknown_pair)
      with k False evs show ?thesis
        by (intro exI[of _ "Suc k"]) (simp add: notUnknown_pair keyPairs_def)
    qed
  qed
qed

lemma toLowerCase_letters:
  "toLowerCase (CHR ''Q'') = CHR ''q''" "toLowerCase (CHR ''W'') = CHR ''w''"
  "toLowerCase (CHR ''E'') = CHR ''e''" "toLowerCase (CHR ''S'') = CHR ''s''"
  "toLowerCase (CHR ''R'') = CHR ''r''" "toLowerCase (CHR ''A'') = CHR ''a''"
  "toLowerCase (CHR ''D'') = CHR ''d''"
  by code_simp+

lemma in_enumerate_prefix:
  assumes "j < m" "m \<le> length letters" "letters ! j \<noteq> CHR ''?''"
  shows "(j, letters ! j) \<in> set (filter notUnknown (enumerate 0 (take m letters)))"
  using assms by (simp add: in_set_enumerate_eq notUnknown_def)

lemma no_key_after_stop:
  assumes pairs: "keyPairs evs = filter notUnknown (enumerate 0 (take k letters))"
    and k: "k \<le> length letters"
    and quiet: "\<forall>p \<in> set (filter notUnknown (enumerate 0 (take (k - 1) letters))). \<not> sd (fst p)"
    and j: "j < length letters" "letters ! j \<noteq> CHR ''?''" "sd j"
    and p: "p \<in> set (keyPairs evs)"
  shows "fst p \<le> j"
proof (rule ccontr)
  assume "\<not> fst p \<le> j"
  then have "j < fst p" by simp
  moreover have "fst p < k" using p pairs by (auto simp: in_set_enumerate_eq)
  ultimately have "j < k - 1" by simp
  moreover have "k - 1 \<le> length letters" using k by simp
  ultimately have "(j, letters ! j) \<in> set (filter notUnknown (enumerate 0 (take (k - 1) letters)))"
    using j(2) by (intro in_enumerate_prefix)
  with quiet have "\<not> sd j" by fastforce
  with j(3) show False by simp
qed

lemma keyLoop_quiet:
  "(\<forall>n < length ls. ls ! n \<noteq> CHR ''?'' \<longrightarrow> \<not> sd (i + n)) \<Longrightarrow>
     snd (keyLoop sd False i ls) = None
     \<and> keyPairs (fst (keyLoop sd False i ls)) = filter notUnknown (enumerate i ls)"
proof (induction ls arbitrary: i)
  case Nil
  then show ?case by (simp add: keyPairs_def)
next
  case (Cons letter rest)
  have rest: "\<forall>n < length rest. rest ! n \<noteq> CHR ''?'' \<longrightarrow> \<not> sd (Suc i + n)"
  proof (intro allI impI)
    fix n assume "n < length rest" "rest ! n \<noteq> CHR ''?''"
    with Cons.prems[rule_format, of "Suc n"] show "\<not> sd (Suc i + n)" by simp
  qed
  note IH = Cons.IH[OF rest]
  show ?case
  proof (cases "letter = CHR ''?''")
    case True
    with IH show ?thesis by (simp add: notUnknown_pair)
  next
    case False
    with Cons.prems[rule_format, of 0] have "\<not> sd i" by simp
    with False IH show ?thesis
      by (auto simp: notUnknown_pair keyPairs_def Let_def split: prod.splits)
  qed
qed

lemma keyLoop_first_stop:
  "n < length ls \<Longrightarrow> ls ! n \<noteq> CHR ''?'' \<Longrightarrow> sd (i + n) \<Longrightarrow>
   (\<forall>m < n. ls ! m \<noteq> CHR ''?'' \<longrightarrow> \<not> sd (i + m)) \<Longrightarrow>
     snd (keyLoop sd False i ls) = (if Suc n < length ls then Some SequenceStopped else None)
     \<and> keyPairs (fst (keyLoop sd False i ls)) = filter notUnknown (enumerate i (take (Suc n) ls))"
proof (induction ls arbitrary: i n)
  case Nil
  then show ?case by simp
next
  case (Cons letter rest)
  show ?case
  proof (cases n)
    case 0
    with Cons.prems show ?thesis
      by (simp add: keyLoop_stopped notUnknown_pair keyPairs_def Let_def)
  next
    case (Suc n')
    have a: "n' < length rest" "rest ! n' \<noteq> CHR ''?''" "sd (Suc i + n')"
      using Cons.prems Suc by simp_all
    have b: "\<forall>m < n'. rest ! m \<noteq> CHR ''?'' \<longrightarrow> \<not> sd (Suc i + m)"
    proof (intro allI impI)
      fix m assume "m < n'" "rest ! m \<noteq> CHR ''?''"
      with Cons.prems(4)[rule_format, of "Suc m"] Suc show "\<not> sd (Suc i + m)" by simp
    qed
    note IH = Cons.IH[OF a b]
    show ?thesis
    proof (cases "letter = CHR ''?''")
      case True
      with IH Suc show ?thesis by (simp add: notUnknown_pair)
    next
      case False
      with Cons.prems(4)[rule_format, of 0] Suc have "\<not> sd i" by simp
      with False IH Suc show ?thesis
        by (auto simp: notUnknown_pair keyPairs_def Let_def split: prod.splits)
    qed
  qed
qed

lemma run_quiet_example:
  "executeKeySequence (\<lambda>i. False) ''QW?ERA?SD'' =
     ([KeyPressed 0 (CHR ''Q''), SendKey (CHR ''q''), KeyPressed 1 (CHR ''W''), SendKey (CHR ''w''),
       KeyPressed 3 (CHR ''E''), SendKey (CHR ''e''), KeyPressed 4 (CHR ''R''), SendKey (CHR ''r''),
       KeyPressed 5 (CHR ''A''), SendKey (CHR ''a''), KeyPressed 7 (CHR ''S''), SendKey (CHR ''s''),
       KeyPressed 8 (CHR ''D''), SendKey (CHR ''d'')],
      None)"
  by (simp add: executeKeySequence_def toLowerCase_letters)

lemma run_example:
  "executeKeySequence (\<lambda>i. i = 3) ''QW?ERA?SD'' =
     ([KeyPressed 0 (CHR ''Q''), SendKey (CHR ''q''), KeyPressed 1 (CHR ''W''), SendKey (CHR ''w''),
       KeyPressed 3 (CHR ''E''), SendKey (CHR ''e''), SolverStatus Stopped StoppedMessage],
      Some SequenceStopped)"
  by (simp add: executeKeySequence_def toLowerCase_letters)

subsection \<open>detectLetters\<close>

lemma collectCells_Inr:
  "collectCells cell ps = Inr letters \<Longrightarrow>
     list_all2 (\<lambda>p l. \<exists>raw. cell (fst p) (snd p) = Some raw \<and> l = detectCellLetter raw) ps letters"
proof (induction ps arbitrary: letters)
  case Nil
  then show ?case by simp
next
  case (Cons p ps)
  obtain row col where p: "p = (row, col)" by (cases p)
  from Cons.prems p obtain raw ls where
    "cell row col = Some raw" "collectCells cell ps = Inr ls" "letters = detectCellLetter raw # ls"
    by (auto split: option.splits sum.splits)
  with Cons.IH[of ls] p show ?case by simp
qed

lemma gridPositions_eq:
  "gridPositions = [(0, 0), (0, 1), (0, 2), (1, 0), (1, 1), (1, 2), (2, 0), (2, 1), (2, 2)]"
  by code_simp

lemma gridPositions_nth:
  "row < 3 \<Longrightarrow> col < 3 \<Longrightarrow> gridPositions ! (3 * row + col) = (row, col)"
proof -
  assume "row < 3" "col < 3"
  then have "row \<in> {0, 1, 2}" "col \<in> {0, 1, 2}" by auto
  then show ?thesis unfolding gridPositions_eq by auto
qed

lemma detectLetters_row_major:
  assumes "detectLetters cell = Inr letters"
  shows "length letters = 9"
    and "row < 3 \<Longrightarrow> col < 3 \<Longrightarrow>
         \<exists>raw. cell row col = Some raw \<and> letters ! (3 * row + col) = detectCellLetter raw"
proof -
  have all: "list_all2 (\<lambda>p l. \<exists>raw. cell (fst p) (snd p) = Some raw \<and> l = detectCellLetter raw)
      gridPositions letters"
    using assms unfolding detectLetters_def by (rule collectCells_Inr)
  then have "length letters = length gridPositions" by (simp add: list_all2_lengthD)
  then show len: "length letters = 9" by (simp add: gridPositions_eq)
  assume rc: "row < 3" "col < 3"
  then have "3 * row + col < length gridPositions" by (simp add: gridPositions_eq)
  from list_all2_nthD[OF all this] gridPositions_nth[OF rc]
  show "\<exists>raw. cell row col = Some raw \<and> letters ! (3 * row + col) = detectCellLetter raw"
    by simp
qed

lemma letter_cyanCell: "detectCellLetter cyanCell = CHR ''S''"
  by (simp add: cyanCell_def letter_block_10_8)

lemma letter_undecodable: "detectCellLetter None = CHR ''?''"
  by (simp add: detectCellLetter_def)

lemma detectLetters_cyanWorld: "detectLetters (\<lambda>row col. Some cyanCell) = Inr ''SSSSSSSSS''"
  by (simp add: detectLetters_def gridPositions_eq letter_cyanCell)

lemma detectLetters_sparseWorld:
  "detectLetters (\<lambda>row col. if row = 0 then Some cyanCell else Some None) = Inr ''SSS??????''"
  by (simp add: detectLetters_def gridPositions_eq letter_cyanCell letter_undecodable)

lemma validate_cyan_region:
  "validateMinigamePresent (Some (paint 4 4 (block 4 4), 4, 4, 3)) = False"
  by code_simp

section \<open>The claims\<close>

text \<open>
  Claim C1. When the presence validation reports the puzzle absent, the session should
  end in the error status without detecting or pressing anything. The code computes
  the verdict and never reads it (the guard that threw on a negative verdict is
  commented out): on a frame that the validation rejects, all nine cells are detected
  and all nine keys are pressed, and the trace of startSolver does not depend on the
  grid region at all.
\<close>

theorem startSolver_ignores_presence:
  "validateMinigamePresent (gridRegion cyanWorld) = False
   \<and> startSolver False cyanWorld =
     [SolverStatus Detecting ScanningScreen, SolverStatus Detecting CapturingScreen,
      SolverStatus Detecting CheckingForMinigame, SolverStatus Detecting DetectingLetters,
      GridDetected ''SSSSSSSSS'', SolverStatus Executing ExecutingKeySequence,
      KeyPressed 0 (CHR ''S''), SendKey (CHR ''s''), KeyPressed 1 (CHR ''S''), SendKey (CHR ''s''),
      KeyPressed 2 (CHR ''S''), SendKey (CHR ''s''), KeyPressed 3 (CHR ''S''), SendKey (CHR ''s''),
      KeyPressed 4 (CHR ''S''), SendKey (CHR ''s''), KeyPressed 5 (CHR ''S''), SendKey (CHR ''s''),
      KeyPressed 6 (CHR ''S''), SendKey (CHR ''s''), KeyPressed 7 (CHR ''S''), SendKey (CHR ''s''),
      KeyPressed 8 (CHR ''S''), SendKey (CHR ''s''), SolverStatus Complete CompleteIn]
   \<and> startSolver busy (w\<lparr>gridRegion := region\<rparr>) = startSolver busy w"
proof -
  have "validateMinigamePresent (gridRegion cyanWorld) = False"
    by (simp add: cyanWorld_def validate_cyan_region)
  moreover have "startSolver False cyanWorld =
     [SolverStatus Detecting ScanningScreen, SolverStatus Detecting CapturingScreen,
      SolverStatus Detecting CheckingForMinigame, SolverStatus Detecting DetectingLetters,
      GridDetected ''SSSSSSSSS'', SolverStatus Executing ExecutingKeySequence,
      KeyPressed 0 (CHR ''S''), SendKey (CHR ''s''), KeyPressed 1 (CHR ''S''), SendKey (CHR ''s''),
      KeyPressed 2 (CHR ''S''), SendKey (CHR ''s''), KeyPressed 3 (CHR ''S''), SendKey (CHR ''s''),
      KeyPressed 4 (CHR ''S''), SendKey (CHR ''s''), KeyPressed 5 (CHR ''S''), SendKey (CHR ''s''),
      KeyPressed 6 (CHR ''S''), SendKey (CHR ''s''), KeyPressed 7 (CHR ''S''), SendKey (CHR ''s''),
      KeyPressed 8 (CHR ''S''), SendKey (CHR ''s''), SolverStatus Complete CompleteIn]"
    by (simp add: startSolver_def cyanWorld_def detectLetters_cyanWorld executeKeySequence_def
        toLowerCase_letters Let_def)
  moreover have "startSolver busy (w\<lparr>gridRegion := region\<rparr>) = startSolver busy w"
    by (simp add: startSolver_def Let_def split: sum.splits)
  ultimately show ?thesis by simp
qed

text \<open>
  Claim C2. Whenever the detected grid has more than five unknown cells, the session
  goes from the detecting status straight to the error status, the error carries the
  number of unknown cells, and neither the executing status nor any key event
  occurs.
\<close>

theorem too_many_unknown_aborts:
  assumes "captureOk w"
    and "detectLetters (cells w) = Inr letters"
    and "5 < length (filter (\<lambda>l. l = CHR ''?'') letters)"
  shows "startSolver False w =
     [SolverStatus Detecting ScanningScreen, SolverStatus Detecting CapturingScreen,
      SolverStatus Detecting CheckingForMinigame, SolverStatus Detecting DetectingLetters,
      GridDetected letters,
      SolverStatus Error (ErrorMessage (TooManyUndetected (length (filter (\<lambda>l. l = CHR ''?'') letters))))]
   \<and> filter isExecuting (startSolver False w) = []
   \<and> filter isKeyEvent (startSolver False w) = []"
  using assms by (simp add: startSolver_def Let_def)

theorem too_many_unknown_aborts_witness:
  "captureOk sparseWorld
   \<and> detectLetters (cells sparseWorld) = Inr ''SSS??????''
   \<and> 5 < length (filter (\<lambda>l. l = CHR ''?'') ''SSS??????'')
   \<and> startSolver False sparseWorld =
     [SolverStatus Detecting ScanningScreen, SolverStatus Detecting CapturingScreen,
      SolverStatus Detecting CheckingForMinigame, SolverStatus Detecting DetectingLetters,
      GridDetected ''SSS??????'',
      SolverStatus Error (ErrorMessage (TooManyUndetected 6))]"
proof -
  have a: "captureOk sparseWorld" by (simp add: sparseWorld_def)
  have b: "detectLetters (cells sparseWorld) = Inr ''SSS??????''"
    by (simp add: sparseWorld_def detectLetters_sparseWorld)
  have c: "5 < length (filter (\<lambda>l. l = CHR ''?'') ''SSS??????'')" by simp
  from too_many_unknown_aborts[OF a b c] a b c show ?thesis by simp
qed

text \<open>
  Claim C3. A cell with fewer foreground pixels than the floor of the signature
  extractor (80) should get the neutral signature and be classified unknown. The
  classifier's own floor is 50: a 10 by 6 all-cyan cell has 60 foreground pixels, gets
  the neutral signature, and is classified S; the classifier maps the neutral
  signature to S for every count of at least 50.
\<close>

theorem neutral_signature_classified_S:
  "createLetterSignature (paint 10 6 (block 10 6)) 10 6 3 =
     \<lparr>cyanPixels = 60, pixelCount = 60, aspectRatio = 1, topHeavy = 1 / 2, bottomHeavy = 1 / 2,
      leftHeavy = 1 / 2, rightHeavy = 1 / 2, centerHole = False\<rparr>
   \<and> detectCellLetter (Some (paint 10 6 (block 10 6), 10, 6, 3)) = CHR ''S''
   \<and> matchSignatureToLetter
        \<lparr>cyanPixels = n, pixelCount = n, aspectRatio = 1, topHeavy = 1 / 2, bottomHeavy = 1 / 2,
         leftHeavy = 1 / 2, rightHeavy = 1 / 2, centerHole = False\<rparr>
       = (if n < 50 then CHR ''?'' else CHR ''S'')"
  by (simp add: signature_block_10_6 letter_block_10_6 matchSignatureToLetter_def)

text \<open>
  Claim C4. detectLetters assembles the nine letters in row-major order (the letter of
  cell (row, col) is at index 3 * row + col). executeKeySequence presses letters in
  list order, each lower-cased and with its index, skipping every '?'. With no stop
  request during any pressed position it ends normally and has pressed every letter
  that is not '?'. When the first stop request falls into the suspension of the
  pressed position j, it has pressed exactly the letters that are not '?' up to and
  including position j, and it ends by the stop exception unless j was the last
  position of the list. In every run the pressed letters are those of a prefix, the
  run ends normally only after the whole list and otherwise by the stop exception, and
  no key of a position after a stop request is pressed.
\<close>

theorem keys_in_row_major_order:
  "(detectLetters cell = Inr letters \<longrightarrow>
      length letters = 9
      \<and> (\<forall>row < 3. \<forall>col < 3.
            \<exists>raw. cell row col = Some raw \<and> letters ! (3 * row + col) = detectCellLetter raw))
   \<and> (executeKeySequence sd letters = (evs, r) \<longrightarrow>
      sentKeys evs = map (\<lambda>p. toLowerCase (snd p)) (keyPairs evs)
      \<and> ((\<forall>j < length letters. letters ! j \<noteq> CHR ''?'' \<longrightarrow> \<not> sd j) \<longrightarrow>
            r = None \<and> keyPairs evs = filter notUnknown (enumerate 0 letters))
      \<and> (\<forall>j < length letters.
            letters ! j \<noteq> CHR ''?'' \<and> sd j
            \<and> (\<forall>i < j. letters ! i \<noteq> CHR ''?'' \<longrightarrow> \<not> sd i) \<longrightarrow>
              keyPairs evs = filter notUnknown (enumerate 0 (take (Suc j) letters))
              \<and> r = (if Suc j < length letters then Some SequenceStopped else None))
      \<and> (\<exists>k \<le> length letters.
          keyPairs evs = filter notUnknown (enumerate 0 (take k letters))
        \<and> (r = None \<longrightarrow> k = length letters)
        \<and> (r \<noteq> None \<longrightarrow> r = Some SequenceStopped \<and> k < length letters))
      \<and> (\<forall>j < length letters. letters ! j \<noteq> CHR ''?'' \<longrightarrow> sd j \<longrightarrow>
            (\<forall>p \<in> set (keyPairs evs). fst p \<le> j)))"
proof (intro conjI impI)
  assume d: "detectLetters cell = Inr letters"
  show "length letters = 9" by (rule detectLetters_row_major(1)[OF d])
  show "\<forall>row < 3. \<forall>col < 3.
          \<exists>raw. cell row col = Some raw \<and> letters ! (3 * row + col) = detectCellLetter raw"
    using detectLetters_row_major(2)[OF d] by blast
next
  assume e: "executeKeySequence sd letters = (evs, r)"
  then have loop: "keyLoop sd False 0 letters = (evs, r)" by (simp add: executeKeySequence_def)
  show "sentKeys evs = map (\<lambda>p. toLowerCase (snd p)) (keyPairs evs)"
    by (rule keyLoop_sentKeys[OF loop])
  from keyLoop_prefix[OF loop] obtain k where k: "k \<le> length letters"
    "keyPairs evs = filter notUnknown (enumerate 0 (take k letters))"
    "r = None \<longrightarrow> k = length letters"
    "r \<noteq> None \<longrightarrow> r = Some SequenceStopped \<and> k < length letters"
    "\<forall>p \<in> set (filter notUnknown (enumerate 0 (take (k - 1) letters))). \<not> sd (fst p)"
    by blast
  from k(1-4)
  show "\<exists>k \<le> length letters.
          keyPairs evs = filter notUnknown (enumerate 0 (take k letters))
        \<and> (r = None \<longrightarrow> k = length letters)
        \<and> (r \<noteq> None \<longrightarrow> r = Some SequenceStopped \<and> k < length letters)"
    by blast
  show "\<forall>j < length letters. letters ! j \<noteq> CHR ''?'' \<longrightarrow> sd j \<longrightarrow>
            (\<forall>p \<in> set (keyPairs evs). fst p \<le> j)"
    using no_key_after_stop[OF k(2) k(1) k(5)] by blast
  show "\<forall>j < length letters.
            letters ! j \<noteq> CHR ''?'' \<and> sd j
            \<and> (\<forall>i < j. letters ! i \<noteq> CHR ''?'' \<longrightarrow> \<not> sd i) \<longrightarrow>
              keyPairs evs = filter notUnknown (enumerate 0 (take (Suc j) letters))
              \<and> r = (if Suc j < length letters then Some SequenceStopped else None)"
  proof (intro allI impI)
    fix j
    assume j: "j < length letters"
      and first: "letters ! j \<noteq> CHR ''?'' \<and> sd j
            \<and> (\<forall>i < j. letters ! i \<noteq> CHR ''?'' \<longrightarrow> \<not> sd i)"
    from first have "sd (0 + j)"
      and "\<forall>m < j. letters ! m \<noteq> CHR ''?'' \<longrightarrow> \<not> sd (0 + m)" by simp_all
    from keyLoop_first_stop[OF j conjunct1[OF first] this] loop
    show "keyPairs evs = filter notUnknown (enumerate 0 (take (Suc j) letters))
              \<and> r = (if Suc j < length letters then Some SequenceStopped else None)"
      by simp
  qed
next
  assume e: "executeKeySequence sd letters = (evs, r)"
    and quiet: "\<forall>j < length letters. letters ! j \<noteq> CHR ''?'' \<longrightarrow> \<not> sd j"
  from e have loop: "keyLoop sd False 0 letters = (evs, r)" by (simp add: executeKeySequence_def)
  from quiet have "\<forall>n < length letters. letters ! n \<noteq> CHR ''?'' \<longrightarrow> \<not> sd (0 + n)" by simp
  from keyLoop_quiet[OF this] loop
  show "r = None" and "keyPairs evs = filter notUnknown (enumerate 0 letters)" by simp_all
qed

theorem keys_in_row_major_order_witness:
  "detectLetters (\<lambda>row col. Some cyanCell) = Inr ''SSSSSSSSS''
   \<and> length ''SSSSSSSSS'' = 9
   \<and> executeKeySequence (\<lambda>i. False) ''QW?ERA?SD'' =
       ([KeyPressed 0 (CHR ''Q''), SendKey (CHR ''q''), KeyPressed 1 (CHR ''W''),
         SendKey (CHR ''w''), KeyPressed 3 (CHR ''E''), SendKey (CHR ''e''),
         KeyPressed 4 (CHR ''R''), SendKey (CHR ''r''), KeyPressed 5 (CHR ''A''),
         SendKey (CHR ''a''), KeyPressed 7 (CHR ''S''), SendKey (CHR ''s''),
         KeyPressed 8 (CHR ''D''), SendKey (CHR ''d'')],
        None)
   \<and> filter notUnknown (enumerate 0 ''QW?ERA?SD'') =
       [(0, CHR ''Q''), (1, CHR ''W''), (3, CHR ''E''), (4, CHR ''R''), (5, CHR ''A''),
        (7, CHR ''S''), (8, CHR ''D'')]
   \<and> executeKeySequence (\<lambda>i. i = 3) ''QW?ERA?SD'' =
       ([KeyPressed 0 (CHR ''Q''), SendKey (CHR ''q''), KeyPressed 1 (CHR ''W''),
         SendKey (CHR ''w''), KeyPressed 3 (CHR ''E''), SendKey (CHR ''e''),
         SolverStatus Stopped StoppedMessage],
        Some SequenceStopped)
   \<and> (3::nat) < length ''QW?ERA?SD'' \<and> ''QW?ERA?SD'' ! 3 \<noteq> CHR ''?''
   \<and> filter notUnknown (enumerate 0 (take (Suc 3) ''QW?ERA?SD'')) =
       [(0, CHR ''Q''), (1, CHR ''W''), (3, CHR ''E'')]
   \<and> (\<exists>k < length ''QW?ERA?SD''.
         [(0, CHR ''Q''), (1, CHR ''W''), (3, CHR ''E'')] =
           filter notUnknown (enumerate 0 (take k ''QW?ERA?SD'')))
   \<and> list_all (\<lambda>p. fst p \<le> 3) [(0::nat, CHR ''Q''), (1, CHR ''W''), (3, CHR ''E'')]"
proof -
  let ?stopped = "[KeyPressed 0 (CHR ''Q''), SendKey (CHR ''q''), KeyPressed 1 (CHR ''W''),
         SendKey (CHR ''w''), KeyPressed 3 (CHR ''E''), SendKey (CHR ''e''),
         SolverStatus Stopped StoppedMessage]"
  let ?all = "[KeyPressed 0 (CHR ''Q''), SendKey (CHR ''q''), KeyPressed 1 (CHR ''W''),
         SendKey (CHR ''w''), KeyPressed 3 (CHR ''E''), SendKey (CHR ''e''),
         KeyPressed 4 (CHR ''R''), SendKey (CHR ''r''), KeyPressed 5 (CHR ''A''),
         SendKey (CHR ''a''), KeyPressed 7 (CHR ''S''), SendKey (CHR ''s''),
         KeyPressed 8 (CHR ''D''), SendKey (CHR ''d'')]"
  have d: "detectLetters (\<lambda>row col. Some cyanCell) = Inr ''SSSSSSSSS''"
    by (rule detectLetters_cyanWorld)
  have e: "executeKeySequence (\<lambda>i. i = 3) ''QW?ERA?SD'' = (?stopped, Some SequenceStopped)"
    by (rule run_example)
  have q: "executeKeySequence (\<lambda>i. False) ''QW?ERA?SD'' = (?all, None)"
    by (rule run_quiet_example)
  have pairs: "keyPairs ?stopped = [(0, CHR ''Q''), (1, CHR ''W''), (3, CHR ''E'')]"
    by (simp add: keyPairs_def)
  have allPairs: "keyPairs ?all =
       [(0, CHR ''Q''), (1, CHR ''W''), (3, CHR ''E''), (4, CHR ''R''), (5, CHR ''A''),
        (7, CHR ''S''), (8, CHR ''D'')]"
    by (simp add: keyPairs_def)
  note stoppedRun = keys_in_row_major_order[of "\<lambda>row col. Some cyanCell" _
      "\<lambda>i. i = 3" ?stopped "Some SequenceStopped"]
  note quietRun = keys_in_row_major_order[of "\<lambda>row col. Some cyanCell" "''QW?ERA?SD''"
      "\<lambda>i. False" ?all None]
  from stoppedRun[of "''SSSSSSSSS''"] d have len: "length ''SSSSSSSSS'' = 9" by blast
  from quietRun q have "keyPairs ?all = filter notUnknown (enumerate 0 ''QW?ERA?SD'')"
    by blast
  then have whole: "filter notUnknown (enumerate 0 ''QW?ERA?SD'') =
       [(0, CHR ''Q''), (1, CHR ''W''), (3, CHR ''E''), (4, CHR ''R''), (5, CHR ''A''),
        (7, CHR ''S''), (8, CHR ''D'')]"
    unfolding allPairs by simp
  have j: "(3::nat) < length ''QW?ERA?SD''" "''QW?ERA?SD'' ! 3 \<noteq> CHR ''?''" by simp_all
  have first: "''QW?ERA?SD'' ! 3 \<noteq> CHR ''?'' \<and> (3::nat) = 3
       \<and> (\<forall>i < 3. ''QW?ERA?SD'' ! i \<noteq> CHR ''?'' \<longrightarrow> \<not> i = (3::nat))"
    by simp
  from stoppedRun[of "''QW?ERA?SD''"] e j(1) first
  have "keyPairs ?stopped = filter notUnknown (enumerate 0 (take (Suc 3) ''QW?ERA?SD''))"
    by blast
  then have upto: "filter notUnknown (enumerate 0 (take (Suc 3) ''QW?ERA?SD'')) =
       [(0, CHR ''Q''), (1, CHR ''W''), (3, CHR ''E'')]"
    unfolding pairs by simp
  from stoppedRun[of "''QW?ERA?SD''"] e obtain k where
    "keyPairs ?stopped = filter notUnknown (enumerate 0 (take k ''QW?ERA?SD''))"
    "k < length ''QW?ERA?SD''"
    by blast
  then have ex: "\<exists>k < length ''QW?ERA?SD''.
         [(0, CHR ''Q''), (1, CHR ''W''), (3, CHR ''E'')] =
           filter notUnknown (enumerate 0 (take k ''QW?ERA?SD''))"
    unfolding pairs by blast
  have "list_all (\<lambda>p. fst p \<le> 3) [(0::nat, CHR ''Q''), (1, CHR ''W''), (3, CHR ''E'')]"
    by simp
  with d len q whole e j upto ex show ?thesis by (intro conjI)
qed

text \<open>
  Claim C5. A stop observed during execution should end the session in a cancelled
  state that is not an error. In the code the stop request sends the stopped status,
  the keys already pressed stay pressed, and then executeKeySequence throws and
  startSolver reports the error status with the message of the stop: here the stop
  request arrives while the third key is suspended.
\<close>

theorem stop_reported_as_error:
  "startSolver False stopWorld =
     [SolverStatus Detecting ScanningScreen, SolverStatus Detecting CapturingScreen,
      SolverStatus Detecting CheckingForMinigame, SolverStatus Detecting DetectingLetters,
      GridDetected ''SSSSSSSSS'', SolverStatus Executing ExecutingKeySequence,
      KeyPressed 0 (CHR ''S''), SendKey (CHR ''s''), KeyPressed 1 (CHR ''S''), SendKey (CHR ''s''),
      KeyPressed 2 (CHR ''S''), SendKey (CHR ''s''), SolverStatus Stopped StoppedMessage,
      SolverStatus Error (ErrorMessage SequenceStopped)]"
  by (simp add: startSolver_def stopWorld_def detectLetters_cyanWorld executeKeySequence_def
      toLowerCase_letters Let_def)

text \<open>
  Claim C6. As stated, with the pixels within the radius counted in a disc around the
  box centre, the claim fails: in the 12 by 8 test cell eight of the 80 foreground
  pixels lie in the disc (fewer than 15%), yet centerHole is false.
\<close>

theorem centerHole_disc_counterexample:
  "80 \<le> card (foreground (paint 12 8 ringCell) 12 8 3)
   \<and> \<not> centerHole (createLetterSignature (paint 12 8 ringCell) 12 8 3)
   \<and> (of_nat (discCount (foreground (paint 12 8 ringCell) 12 8 3)) :: rat)
       < of_nat (card (foreground (paint 12 8 ringCell) 12 8 3)) * 0.15"
  by (simp add: card_ringCell centerHole_ringCell discCount_ringCell)

text \<open>
  Claim C6, amended. For a cell with at least 80 foreground pixels, centerHole is true
  exactly when the number of foreground pixels whose horizontal and vertical
  distances from the centre of the bounding box are both strictly below a quarter of
  the smaller box dimension (a square window) is strictly below 15% of the number of
  foreground pixels.
\<close>

theorem centerHole_window:
  "80 \<le> card (foreground data width height channels) \<Longrightarrow>
   centerHole (createLetterSignature data width height channels) =
     (of_nat (windowCount (foreground data width height channels)) <
      of_nat (card (foreground data width height channels)) * (0.15 :: rat))"
  by (rule centerHole_computed) (simp add: length_brightPixelsOf)

theorem centerHole_window_witness:
  "80 \<le> card (foreground (paint 12 8 ringCell) 12 8 3)
   \<and> \<not> (of_nat (windowCount (foreground (paint 12 8 ringCell) 12 8 3)) <
      of_nat (card (foreground (paint 12 8 ringCell) 12 8 3)) * (0.15 :: rat))"
proof -
  have big: "80 \<le> card (foreground (paint 12 8 ringCell) 12 8 3)"
    by (simp add: card_ringCell)
  from centerHole_window[OF big] big show ?thesis
    by (simp add: centerHole_ringCell)
qed

text \<open>
  Claim C7. For a cell with at least 80 foreground pixels the aspect ratio of the
  signature is the width of the bounding box of the foreground pixels divided by its
  height; with fewer than 80 it is 1 and the four mass fractions are 1/2.
\<close>

theorem aspectRatio_of_bounding_box:
  "(80 \<le> card (foreground data width height channels) \<longrightarrow>
      aspectRatio (createLetterSignature data width height channels) =
        of_nat (boxWidth (foreground data width height channels)) /
        of_nat (boxHeight (foreground data width height channels)))
   \<and> (card (foreground data width height channels) < 80 \<longrightarrow>
      aspectRatio (createLetterSignature data width height channels) = 1
      \<and> topHeavy (createLetterSignature data width height channels) = 1 / 2
      \<and> bottomHeavy (createLetterSignature data width height channels) = 1 / 2
      \<and> leftHeavy (createLetterSignature data width height channels) = 1 / 2
      \<and> rightHeavy (createLetterSignature data width height channels) = 1 / 2)"
proof (cases "length (brightPixelsOf data width height channels) < 80")
  case True
  then show ?thesis
    unfolding signature_neutral[OF True] by (simp add: length_brightPixelsOf)
next
  case False
  then show ?thesis
    using aspectRatio_computed[OF False] by (simp add: length_brightPixelsOf)
qed

theorem aspectRatio_of_bounding_box_witness:
  "80 \<le> card (foreground (paint 10 8 (block 10 8)) 10 8 3)
   \<and> of_nat (boxWidth (foreground (paint 10 8 (block 10 8)) 10 8 3)) /
     of_nat (boxHeight (foreground (paint 10 8 (block 10 8)) 10 8 3)) = (5 / 4 :: rat)
   \<and> card (foreground (paint 10 6 (block 10 6)) 10 6 3) < 80
   \<and> aspectRatio (createLetterSignature (paint 10 6 (block 10 6)) 10 6 3) = 1
   \<and> leftHeavy (createLetterSignature (paint 10 6 (block 10 6)) 10 6 3) = 1 / 2"
proof -
  have big: "80 \<le> card (foreground (paint 10 8 (block 10 8)) 10 8 3)"
    unfolding length_brightPixelsOf[symmetric] scan_block_10_8 by code_simp
  have small: "card (foreground (paint 10 6 (block 10 6)) 10 6 3) < 80"
    unfolding length_brightPixelsOf[symmetric] scan_block_10_6 by code_simp
  from big small
    aspectRatio_of_bounding_box[of "paint 10 8 (block 10 8)" 10 8 3]
    aspectRatio_of_bounding_box[of "paint 10 6 (block 10 6)" 10 6 3]
  show ?thesis by (simp add: aspect_block_10_8)
qed

text \<open>
  Claim C8. The remapping detectCellLetter returns the correction of what the
  unremapped classifier returns, for every cell, and so does the older detectLetter;
  the correction sends A to D, S to A, D to E, Q to R and W to W, and leaves every
  symbol without an entry, among them E, R and '?', unchanged.
\<close>

theorem correction_applied_to_every_cell:
  "detectCellLetter_remap raw = correctedLetter (detectCellLetter raw)
   \<and> detectLetter data w h channels =
       correctedLetter
         (if length (brightPixelsOf_lenient data w h channels) < 30 then CHR ''?''
          else detectLetter_classify (brightPixelsOf_lenient data w h channels))
   \<and> correctedLetter (CHR ''A'') = CHR ''D''
   \<and> correctedLetter (CHR ''S'') = CHR ''A''
   \<and> correctedLetter (CHR ''D'') = CHR ''E''
   \<and> correctedLetter (CHR ''Q'') = CHR ''R''
   \<and> correctedLetter (CHR ''W'') = CHR ''W''
   \<and> correctedLetter (CHR ''E'') = CHR ''E''
   \<and> correctedLetter (CHR ''R'') = CHR ''R''
   \<and> correctedLetter (CHR ''?'') = CHR ''?''
   \<and> (l \<notin> dom letterMap \<longrightarrow> correctedLetter l = l)"
proof -
  have unknown: "correctedLetter (CHR ''?'') = CHR ''?''"
    by (simp add: correctedLetter_def letterMap_def)
  have remap: "detectCellLetter_remap raw = correctedLetter (detectCellLetter raw)"
    by (cases raw) (auto simp: detectCellLetter_remap_def detectCellLetter_def Let_def unknown)
  have old: "detectLetter data w h channels =
       correctedLetter
         (if length (brightPixelsOf_lenient data w h channels) < 30 then CHR ''?''
          else detectLetter_classify (brightPixelsOf_lenient data w h channels))"
    by (simp add: detectLetter_def Let_def unknown)
  have table: "correctedLetter (CHR ''A'') = CHR ''D''" "correctedLetter (CHR ''S'') = CHR ''A''"
    "correctedLetter (CHR ''D'') = CHR ''E''" "correctedLetter (CHR ''Q'') = CHR ''R''"
    "correctedLetter (CHR ''W'') = CHR ''W''" "correctedLetter (CHR ''E'') = CHR ''E''"
    "correctedLetter (CHR ''R'') = CHR ''R''"
    by (simp_all add: correctedLetter_def letterMap_def)
  have ident: "l \<notin> dom letterMap \<longrightarrow> correctedLetter l = l"
    by (auto simp: correctedLetter_def split: option.splits)
  from remap old table unknown ident show ?thesis by simp
qed

theorem correction_applied_to_every_cell_witness:
  "CHR ''E'' \<notin> dom letterMap \<and> correctedLetter (CHR ''E'') = CHR ''E''
   \<and> detectCellLetter_remap None = CHR ''?''"
proof -
  have "CHR ''E'' \<notin> dom letterMap" by (simp add: letterMap_def)
  moreover have "detectCellLetter None = CHR ''?''" by (simp add: detectCellLetter_def)
  ultimately show ?thesis
    using correction_applied_to_every_cell[of None "[]" 0 0 0 "CHR ''E''"] by simp
qed

text \<open>
  Claim C9. updateConfig treats an offset of 0 as absent: with the resolution
  2560x1440 and offsetX 0 the resulting offsetX is the preset -144; with that
  resolution an absent or zero offset becomes the preset (-144, -117) and any other
  supplied offset is kept; a non-zero supplied offset is kept in every call.
\<close>

theorem updateConfig_zero_offset_is_absent:
  "offsetX (updateConfig cfg
      \<lparr>baseDelay = None, delayVariance = None, resolution = Some ''2560x1440'',
       cellSize = None, cellSpacing = None, offsetX = Some 0, offsetY = None\<rparr>) = Some (- 144)
   \<and> (resolution newConfig = Some ''2560x1440'' \<longrightarrow>
        offsetX (updateConfig cfg newConfig) =
          (if offsetX newConfig = None \<or> offsetX newConfig = Some 0 then Some (- 144)
           else offsetX newConfig)
        \<and> offsetY (updateConfig cfg newConfig) =
          (if offsetY newConfig = None \<or> offsetY newConfig = Some 0 then Some (- 117)
           else offsetY newConfig))
   \<and> (offsetX newConfig = Some v \<and> v \<noteq> 0 \<longrightarrow> offsetX (updateConfig cfg newConfig) = Some v)
   \<and> (offsetY newConfig = Some v \<and> v \<noteq> 0 \<longrightarrow> offsetY (updateConfig cfg newConfig) = Some v)"
  by (auto simp: updateConfig_def Let_def RESOLUTION_CONFIGS_def spread_def truthyNumber_def
      split: option.splits lookup.splits)

theorem updateConfig_zero_offset_is_absent_witness:
  "offsetX (updateConfig initialConfig
      \<lparr>baseDelay = None, delayVariance = None, resolution = Some ''2560x1440'',
       cellSize = None, cellSpacing = None, offsetX = Some 0, offsetY = Some 7\<rparr>) = Some (- 144)
   \<and> offsetY (updateConfig initialConfig
      \<lparr>baseDelay = None, delayVariance = None, resolution = Some ''2560x1440'',
       cellSize = None, cellSpacing = None, offsetX = Some 0, offsetY = Some 7\<rparr>) = Some 7"
  using updateConfig_zero_offset_is_absent[of initialConfig
      "\<lparr>baseDelay = None, delayVariance = None, resolution = Some ''2560x1440'',
       cellSize = None, cellSpacing = None, offsetX = Some 0, offsetY = Some 7\<rparr>" 7]
  by simp

text \<open>
  Claim C10. In both branches of createLetterSignature the left and right fractions
  add up to 1, the top and bottom fractions add up to 1, and each fraction lies
  between 0 and 1 (numbers being exact rationals).
\<close>

theorem mass_fractions_complementary:
  "leftHeavy (createLetterSignature data width height channels)
     + rightHeavy (createLetterSignature data width height channels) = 1
   \<and> topHeavy (createLetterSignature data width height channels)
     + bottomHeavy (createLetterSignature data width height channels) = 1
   \<and> 0 \<le> leftHeavy (createLetterSignature data width height channels)
   \<and> leftHeavy (createLetterSignature data width height channels) \<le> 1
   \<and> 0 \<le> rightHeavy (createLetterSignature data width height channels)
   \<and> rightHeavy (createLetterSignature data width height channels) \<le> 1
   \<and> 0 \<le> topHeavy (createLetterSignature data width height channels)
   \<and> topHeavy (createLetterSignature data width height channels) \<le> 1
   \<and> 0 \<le> bottomHeavy (createLetterSignature data width height channels)
   \<and> bottomHeavy (createLetterSignature data width height channels) \<le> 1"
proof (cases "length (brightPixelsOf data width height channels) < 80")
  case True
  show ?thesis unfolding signature_neutral[OF True] by simp
next
  case False
  then have ne: "brightPixelsOf data width height channels \<noteq> []" by auto
  show ?thesis
    unfolding createLetterSignature_def Let_def
    by (simp only: False if_False signature.select_convs heavy_sum[OF ne] heavy_range[OF ne] simp_thms)
qed

theorem mass_fractions_complementary_witness:
  "leftHeavy (createLetterSignature (paint 10 8 (block 10 8)) 10 8 3)
     + rightHeavy (createLetterSignature (paint 10 8 (block 10 8)) 10 8 3) = 1
   \<and> leftHeavy (createLetterSignature (paint 10 8 (block 10 8)) 10 8 3) = 1 / 2"
  using mass_fractions_complementary[of "paint 10 8 (block 10 8)" 10 8 3]
  by (simp add: signature_block_10_8)

end
